theory Spec2Isabelle
  imports Main
begin

section \<open>The HTTP surface of main.go\<close>

text \<open>
  The model covers \<^verbatim>\<open>publicSuffixHttpHandler\<close> of main.go and the closure
  \<^verbatim>\<open>publicSuffixHttpResponse\<close> defined inside it. Go strings are byte sequences, which is
  what \<^typ>\<open>string\<close> is. A reply's JSON body is modelled as the value a client reads from
  it: an object is the ordered list of its fields, named by the struct tags, and a string
  is the byte sequence the written text denotes. The escapes by which the encoder writes
  that sequence are not modelled.
\<close>

datatype json = JString string | JNumber int | JObject "(string \<times> json) list"

datatype payload = JsonBody json | TextBody string

text \<open>The struct \<^verbatim>\<open>PublicSuffixHttpResponse\<close> (main.go, lines 58 to 62).\<close>

record PublicSuffixHttpResponse =
  Domain :: string
  PublicSuffix :: string
  IsManagedBy :: string

text \<open>
  \<^verbatim>\<open>utf8.DecodeRuneInString\<close>, as far as the JSON encoder uses it: the width in bytes of the
  well-formed UTF-8 sequence at the head of the string, or \<open>None\<close> where Go reports
  \<^verbatim>\<open>RuneError\<close> with width 1. \<open>acceptTail lo hi sz bs\<close> checks the bytes after the first: there
  must be \<open>sz - 1\<close> of them, the second byte of the sequence within \<open>lo\<close> to \<open>hi\<close>, the later
  ones within 0x80 to 0xBF.
\<close>

definition byteIn :: "nat \<Rightarrow> nat \<Rightarrow> char \<Rightarrow> bool" where
  "byteIn lo hi b \<longleftrightarrow> lo \<le> of_char b \<and> (of_char b :: nat) \<le> hi"

definition acceptTail :: "nat \<Rightarrow> nat \<Rightarrow> nat \<Rightarrow> string \<Rightarrow> nat option" where
  "acceptTail lo hi sz bs =
     (if Suc (length bs) < sz then None
      else if \<not> byteIn lo hi (bs ! 0) then None
      else if sz \<le> 2 then Some 2
      else if \<not> byteIn 0x80 0xBF (bs ! 1) then None
      else if sz \<le> 3 then Some 3
      else if \<not> byteIn 0x80 0xBF (bs ! 2) then None
      else Some 4)"

fun DecodeRuneInString :: "string \<Rightarrow> nat option" where
  "DecodeRuneInString [] = None"
| "DecodeRuneInString (b # bs) =
     (if byteIn 0x00 0x7F b then Some 1
      else if byteIn 0xC2 0xDF b then acceptTail 0x80 0xBF 2 bs
      else if byteIn 0xE0 0xE0 b then acceptTail 0xA0 0xBF 3 bs
      else if byteIn 0xE1 0xEC b then acceptTail 0x80 0xBF 3 bs
      else if byteIn 0xED 0xED b then acceptTail 0x80 0x9F 3 bs
      else if byteIn 0xEE 0xEF b then acceptTail 0x80 0xBF 3 bs
      else if byteIn 0xF0 0xF0 b then acceptTail 0x90 0xBF 4 bs
      else if byteIn 0xF1 0xF3 b then acceptTail 0x80 0xBF 4 bs
      else if byteIn 0xF4 0xF4 b then acceptTail 0x80 0x8F 4 bs
      else None)"

text \<open>
  The string a client reads back from what \<^verbatim>\<open>encoding/json\<close> writes for a Go string: the
  encoder walks the string rune by rune, copies each well-formed sequence and writes the
  replacement character U+FFFD (in UTF-8 the bytes EF BF BD) for each byte at which no
  well-formed sequence starts. A width \<open>n\<close> is at least 1, so \<open>drop (n - 1) bs\<close> is what is
  left of \<open>b # bs\<close> after \<open>n\<close> bytes.
\<close>

definition replacementChar :: string where
  "replacementChar = [CHR 0xEF, CHR 0xBF, CHR 0xBD]"

fun coerceUTF8 :: "string \<Rightarrow> string" where
  "coerceUTF8 [] = []"
| "coerceUTF8 (b # bs) =
     (case DecodeRuneInString (b # bs) of
        None \<Rightarrow> replacementChar @ coerceUTF8 bs
      | Some n \<Rightarrow> b # take (n - 1) bs @ coerceUTF8 (drop (n - 1) bs))"

text \<open>\<^verbatim>\<open>utf8.ValidString\<close>: the string is a sequence of well-formed UTF-8 sequences.\<close>

fun ValidString :: "string \<Rightarrow> bool" where
  "ValidString [] = True"
| "ValidString (b # bs) =
     (case DecodeRuneInString (b # bs) of
        None \<Rightarrow> False
      | Some n \<Rightarrow> ValidString (drop (n - 1) bs))"

definition jsonString :: "string \<Rightarrow> json" where
  "jsonString s = JString (coerceUTF8 s)"

text \<open>
  What a client reads from the encoding of that struct: one field per struct tag, in
  order, each a string.
\<close>

definition encodeResponse :: "PublicSuffixHttpResponse \<Rightarrow> json" where
  "encodeResponse r =
     JObject [(''domain'', jsonString (Domain r)),
              (''publicSuffix'', jsonString (PublicSuffix r)),
              (''isManagedBy'', jsonString (IsManagedBy r))]"

text \<open>\<^verbatim>\<open>strings.IndexByte\<close>: the index of the first occurrence of a byte, or -1.\<close>

fun IndexByte :: "string \<Rightarrow> char \<Rightarrow> int" where
  "IndexByte [] c = - 1"
| "IndexByte (x # xs) c =
     (if x = c then 0
      else (let i = IndexByte xs c in if i < 0 then - 1 else i + 1))"

text \<open>
  The closure \<^verbatim>\<open>publicSuffixHttpResponse\<close> (lines 64 to 83). The call
  \<^verbatim>\<open>publicsuffix.PublicSuffix(domain)\<close> goes to a package outside this repository; it is
  the parameter \<open>lookup\<close>, a function from the domain string to the two values the call
  site receives: the suffix and the ICANN flag. The call site receives no error value.
\<close>

definition publicSuffixHttpResponse ::
    "(string \<Rightarrow> string \<times> bool) \<Rightarrow> string \<Rightarrow> PublicSuffixHttpResponse" where
  "publicSuffixHttpResponse lookup domain =
     (let (publicSuffix, isIcannManaged) = lookup domain;
          isManagedBy =
            (if isIcannManaged then ''ICANN''
             else if IndexByte publicSuffix (CHR ''.'') \<ge> 0 then ''PRIVATE_ENTITY''
             else ''NONE'')
      in \<lparr>Domain = domain, PublicSuffix = publicSuffix, IsManagedBy = isManagedBy\<rparr>)"

text \<open>
  The request, as far as the handler reads it: the path of the URL and the query as the
  list of its key/value pairs in order. \<^verbatim>\<open>URL.Query().Get(key)\<close> is the first value stored
  for the key, or the empty string when the key is absent.
\<close>

record httpRequest =
  urlPath :: string
  urlQuery :: "(string \<times> string) list"

definition queryGet :: "(string \<times> string) list \<Rightarrow> string \<Rightarrow> string" where
  "queryGet q k = (case map_of q k of None \<Rightarrow> [] | Some v \<Rightarrow> v)"

text \<open>
  What one request leaves behind: the status code, the headers the handler added, the
  body, and \<open>lookups\<close>, the arguments of the calls of \<^verbatim>\<open>publicsuffix.PublicSuffix\<close> made
  while the request was served, in order.
\<close>

record httpResult =
  status :: int
  header :: "(string \<times> string) list"
  body :: payload
  lookups :: "string list"

definition StatusOK :: int where "StatusOK = 200"
definition StatusBadRequest :: int where "StatusBadRequest = 400"
definition StatusNotFound :: int where "StatusNotFound = 404"

text \<open>
  \<^verbatim>\<open>http.StatusText(http.StatusBadRequest)\<close>, the one call of \<^verbatim>\<open>http.StatusText\<close> in the
  handler.
\<close>

definition StatusTextBadRequest :: string where
  "StatusTextBadRequest = ''Bad Request''"

text \<open>\<^verbatim>\<open>http.NotFound\<close>: a plain-text 404 reply.\<close>

definition http_NotFound :: httpResult where
  "http_NotFound =
     \<lparr>status = StatusNotFound,
      header = [(''Content-Type'', ''text/plain; charset=utf-8''),
                (''X-Content-Type-Options'', ''nosniff'')],
      body = TextBody (''404 page not found'' @ [CHR 0x0A]),
      lookups = []\<rparr>"

text \<open>
  \<^verbatim>\<open>publicSuffixHttpHandler\<close> (lines 52 to 106). A reply on which \<^verbatim>\<open>WriteHeader\<close> was not
  called has status 200.
\<close>

definition publicSuffixHttpHandler ::
    "(string \<Rightarrow> string \<times> bool) \<Rightarrow> httpRequest \<Rightarrow> httpResult" where
  "publicSuffixHttpHandler lookup httpRequest =
     (if urlPath httpRequest \<noteq> ''/publicsuffix'' then http_NotFound
      else
        (let domain = queryGet (urlQuery httpRequest) ''domain'';
             hdr = [(''Content-Type'', ''application/json; charset=utf-8'')]
         in if domain = [] then
              \<lparr>status = StatusBadRequest,
               header = hdr,
               body = JsonBody (JObject
                 [(''errorCode'', JNumber StatusBadRequest),
                  (''errorType'', jsonString StatusTextBadRequest),
                  (''errorMessage'', jsonString ''Malformed URL query parameter `domain`'')]),
               lookups = []\<rparr>
            else
              \<lparr>status = StatusOK,
               header = hdr,
               body = JsonBody (encodeResponse (publicSuffixHttpResponse lookup domain)),
               lookups = [domain]\<rparr>))"

text \<open>The names of the fields of a JSON body, in order; none for a body that is not an object.\<close>

fun fieldNames :: "payload \<Rightarrow> string list" where
  "fieldNames (JsonBody (JObject fs)) = map fst fs"
| "fieldNames _ = []"

text \<open>The value of a field of a JSON body.\<close>

fun field :: "payload \<Rightarrow> string \<Rightarrow> json option" where
  "field (JsonBody (JObject fs)) k = map_of fs k"
| "field _ k = None"

text \<open>A request to the endpoint with one \<^verbatim>\<open>domain\<close> parameter.\<close>

definition domainRequest :: "string \<Rightarrow> httpRequest" where
  "domainRequest d = \<lparr>urlPath = ''/publicsuffix'', urlQuery = [(''domain'', d)]\<rparr>"

section \<open>The lookup, from the specification\<close>

text \<open>
  Modelled from the spec: the function \<^verbatim>\<open>publicsuffix.PublicSuffix\<close> of the package
  golang.org/x/net/publicsuffix and its rule table. main.go calls it at line 65 with the
  query string as received; neither the function nor the table is part of this
  repository's source. Every definition of this section follows the specification's data
  model (section 3) and matching algorithm (section 4.2, steps 1 to 5).

  The specification's preprocessing (lowercasing, stripping one trailing dot, rejecting
  empty labels) is described for the classification as a whole. The code of the
  classification is main.go, which does none of it, and the call returns a string and a
  flag, never an error. The lookup modelled here therefore works on the labels of the
  string exactly as main.go passes it.
\<close>

text \<open>Modelled from the spec: the kind and the origin of a rule (section 3).\<close>

datatype kind = Plain | Wildcard | Exception

datatype origin = ICANN | PrivateEntity

text \<open>
  Modelled from the spec: the Rule of section 3, one entry of the list. \<open>labels\<close> are the
  labels of the stored pattern in written order, the top-level label last; for a wildcard
  rule the pattern is what follows \<^verbatim>\<open>*.\<close>, for an exception rule what follows \<^verbatim>\<open>!\<close>.
\<close>

record rule =
  labels :: "string list"
  kind :: kind
  origin :: origin

text \<open>
  Modelled from the spec: the label sequence of a domain (section 4.2, "split on the dot",
  the rightmost label being the top-level label) and the dot-joined string of a label
  sequence (step 5). A string with n dots has n + 1 labels, some of which may be empty.
  \<open>takeLast\<close> and \<open>isSuffixOf\<close> speak of the trailing labels of a domain.
\<close>

fun splitDots :: "string \<Rightarrow> string list" where
  "splitDots [] = [[]]"
| "splitDots (c # cs) =
     (if c = CHR ''.'' then [] # splitDots cs
      else (c # hd (splitDots cs)) # tl (splitDots cs))"

fun joinDots :: "string list \<Rightarrow> string" where
  "joinDots [] = []"
| "joinDots [l] = l"
| "joinDots (l # ls) = l @ CHR ''.'' # joinDots ls"

definition topLevelLabel :: "string \<Rightarrow> string" where
  "topLevelLabel d = last (splitDots d)"

definition takeLast :: "nat \<Rightarrow> 'a list \<Rightarrow> 'a list" where
  "takeLast n xs = drop (length xs - n) xs"

definition isSuffixOf :: "'a list \<Rightarrow> 'a list \<Rightarrow> bool" where
  "isSuffixOf xs ys \<longleftrightarrow> length xs \<le> length ys \<and> takeLast (length xs) ys = xs"

text \<open>
  Modelled from the spec: the lookup primitive \<^verbatim>\<open>rulesForTopLabel\<close> of section 4.1 on the
  rule table, here the list of its rules: the rules that share the top-level label, none
  when the label is unknown.
\<close>

definition rulesForTopLabel :: "rule list \<Rightarrow> string \<Rightarrow> rule list" where
  "rulesForTopLabel tbl l = filter (\<lambda>r. labels r \<noteq> [] \<and> last (labels r) = l) tbl"

text \<open>
  Modelled from the spec: step 2 of section 4.2, when a rule matches the labels of a domain.
  A plain and an exception rule match when their labels are the trailing labels of the
  domain; a wildcard rule needs one more label to the left of its pattern.
\<close>

definition ruleMatches :: "rule \<Rightarrow> string list \<Rightarrow> bool" where
  "ruleMatches r dl =
     (case kind r of
        Plain \<Rightarrow> isSuffixOf (labels r) dl
      | Wildcard \<Rightarrow> isSuffixOf (labels r) dl \<and> length (labels r) < length dl
      | Exception \<Rightarrow> isSuffixOf (labels r) dl)"

text \<open>
  Modelled from the spec: the label count by which step 3 compares rules (a wildcard
  counts the label it consumes), and the number of trailing labels of the domain that form
  the matched suffix of step 5 (an exception gives up its leading label).
\<close>

definition labelCount :: "rule \<Rightarrow> nat" where
  "labelCount r =
     (case kind r of
        Plain \<Rightarrow> length (labels r)
      | Wildcard \<Rightarrow> Suc (length (labels r))
      | Exception \<Rightarrow> length (labels r))"

definition suffixLength :: "rule \<Rightarrow> nat" where
  "suffixLength r =
     (case kind r of
        Plain \<Rightarrow> length (labels r)
      | Wildcard \<Rightarrow> Suc (length (labels r))
      | Exception \<Rightarrow> length (labels r) - 1)"

text \<open>
  Modelled from the spec: steps 1 to 3. The candidates are the rules for the top-level
  label; of those that match, the wildcard rules are set aside when an exception rule
  matches; of the rest the one with the greatest label count is selected (the first such
  in table order).
\<close>

definition matchingRules :: "rule list \<Rightarrow> string list \<Rightarrow> rule list" where
  "matchingRules tbl dl = filter (\<lambda>r. ruleMatches r dl) (rulesForTopLabel tbl (last dl))"

definition applicable :: "rule list \<Rightarrow> string list \<Rightarrow> rule list" where
  "applicable tbl dl =
     (let ms = matchingRules tbl dl
      in if list_ex (\<lambda>r. kind r = Exception) ms
         then filter (\<lambda>r. kind r \<noteq> Wildcard) ms
         else ms)"

fun selectLongest :: "rule list \<Rightarrow> rule option" where
  "selectLongest [] = None"
| "selectLongest (r # rs) =
     (case selectLongest rs of
        None \<Rightarrow> Some r
      | Some b \<Rightarrow> if labelCount r < labelCount b then Some b else Some r)"

text \<open>
  Modelled from the spec: \<^verbatim>\<open>publicsuffix.PublicSuffix\<close>, the function main.go calls at line
  65, as steps 1 to 5 of section 4.2 on a given rule table. Without a selected rule the
  implicit default rule applies: the top-level label alone, not ICANN-managed.
\<close>

definition publicsuffix_PublicSuffix :: "rule list \<Rightarrow> string \<Rightarrow> string \<times> bool" where
  "publicsuffix_PublicSuffix tbl domain =
     (let dl = splitDots domain
      in case selectLongest (applicable tbl dl) of
           None \<Rightarrow> (last dl, False)
         | Some r \<Rightarrow> (joinDots (takeLast (suffixLength r) dl), origin r = ICANN))"

text \<open>
  The classification of the specification on a rule table: the closure
  \<^verbatim>\<open>publicSuffixHttpResponse\<close> of main.go with its lookup bound to the modelled one on that
  table.
\<close>

definition classify :: "rule list \<Rightarrow> string \<Rightarrow> PublicSuffixHttpResponse" where
  "classify tbl domain = publicSuffixHttpResponse (publicsuffix_PublicSuffix tbl) domain"

section \<open>Helper lemmas\<close>

subsection \<open>The HTTP surface\<close>

lemma IndexByte_nonneg_iff: "0 \<le> IndexByte s c \<longleftrightarrow> c \<in> set s"
  by (induction s) (auto simp: Let_def)

lemma length_coerceUTF8: "length s \<le> length (coerceUTF8 s)"
proof (induction s rule: coerceUTF8.induct)
  case 1
  then show ?case by simp
next
  case (2 b bs)
  show ?case
  proof (cases "DecodeRuneInString (b # bs)")
    case None
    with "2.IH"(1) show ?thesis
      by (simp add: replacementChar_def del: DecodeRuneInString.simps)
  next
    case (Some n)
    with "2.IH"(2) [OF Some] show ?thesis
      by (simp del: DecodeRuneInString.simps)
  qed
qed

lemma ValidString_coerceUTF8: "ValidString s \<Longrightarrow> coerceUTF8 s = s"
proof (induction s rule: coerceUTF8.induct)
  case 1
  then show ?case by simp
next
  case (2 b bs)
  show ?case
  proof (cases "DecodeRuneInString (b # bs)")
    case None
    with "2.prems" show ?thesis by (simp del: DecodeRuneInString.simps)
  next
    case (Some n)
    with "2.prems" have "ValidString (drop (n - 1) bs)"
      by (simp del: DecodeRuneInString.simps)
    with "2.IH"(2) [OF Some] Some show ?thesis
      by (simp del: DecodeRuneInString.simps)
  qed
qed

lemma coerceUTF8_fixed_ValidString: "coerceUTF8 s = s \<Longrightarrow> ValidString s"
proof (induction s rule: coerceUTF8.induct)
  case 1
  then show ?case by simp
next
  case (2 b bs)
  show ?case
  proof (cases "DecodeRuneInString (b # bs)")
    case None
    with "2.prems" have "replacementChar @ coerceUTF8 bs = b # bs"
      by (simp del: DecodeRuneInString.simps)
    then have "length (replacementChar @ coerceUTF8 bs) = length (b # bs)" by simp
    with length_coerceUTF8 [of bs] show ?thesis by (simp add: replacementChar_def)
  next
    case (Some n)
    with "2.prems" have e: "take (n - 1) bs @ coerceUTF8 (drop (n - 1) bs) = bs"
      by (simp del: DecodeRuneInString.simps)
    have "take (n - 1) bs @ coerceUTF8 (drop (n - 1) bs) = take (n - 1) bs @ drop (n - 1) bs"
      using e by simp
    then have "coerceUTF8 (drop (n - 1) bs) = drop (n - 1) bs" by (simp only: same_append_eq)
    with "2.IH"(2) [OF Some] Some show ?thesis by (simp del: DecodeRuneInString.simps)
  qed
qed

lemma coerceUTF8_fixed_iff: "coerceUTF8 s = s \<longleftrightarrow> ValidString s"
  using ValidString_coerceUTF8 coerceUTF8_fixed_ValidString by blast

lemma ascii_ValidString: "\<forall>c \<in> set s. (of_char c :: nat) < 128 \<Longrightarrow> ValidString s"
proof (induction s)
  case Nil
  then show ?case by simp
next
  case (Cons b bs)
  then have "DecodeRuneInString (b # bs) = Some 1" by (simp add: byteIn_def)
  with Cons show ?case by (simp del: DecodeRuneInString.simps)
qed

lemma coerceUTF8_managers:
  "coerceUTF8 ''ICANN'' = ''ICANN''"
  "coerceUTF8 ''PRIVATE_ENTITY'' = ''PRIVATE_ENTITY''"
  "coerceUTF8 ''NONE'' = ''NONE''"
  by (rule ValidString_coerceUTF8, rule ascii_ValidString, simp)+

lemma response_fields:
  "Domain (publicSuffixHttpResponse lookup d) = d"
  "PublicSuffix (publicSuffixHttpResponse lookup d) = fst (lookup d)"
  "IsManagedBy (publicSuffixHttpResponse lookup d) =
     (if snd (lookup d) then ''ICANN''
      else if CHR ''.'' \<in> set (fst (lookup d)) then ''PRIVATE_ENTITY''
      else ''NONE'')"
  by (simp_all add: publicSuffixHttpResponse_def Let_def split_beta IndexByte_nonneg_iff)

lemma handler_present:
  assumes "urlPath req = ''/publicsuffix''" and "queryGet (urlQuery req) ''domain'' = d" and "d \<noteq> []"
  shows "publicSuffixHttpHandler lookup req =
           \<lparr>status = 200,
            header = [(''Content-Type'', ''application/json; charset=utf-8'')],
            body = JsonBody (encodeResponse (publicSuffixHttpResponse lookup d)),
            lookups = [d]\<rparr>"
  using assms by (simp add: publicSuffixHttpHandler_def Let_def StatusOK_def)

lemma handler_absent:
  assumes "urlPath req = ''/publicsuffix''" and "queryGet (urlQuery req) ''domain'' = []"
  shows "publicSuffixHttpHandler lookup req =
           \<lparr>status = 400,
            header = [(''Content-Type'', ''application/json; charset=utf-8'')],
            body = JsonBody (JObject
                 [(''errorCode'', JNumber 400),
                  (''errorType'', jsonString ''Bad Request''),
                  (''errorMessage'', jsonString ''Malformed URL query parameter `domain`'')]),
            lookups = []\<rparr>"
  using assms by (simp add: publicSuffixHttpHandler_def Let_def StatusBadRequest_def StatusTextBadRequest_def)

lemma domainRequest_simps:
  "urlPath (domainRequest d) = ''/publicsuffix''"
  "queryGet (urlQuery (domainRequest d)) ''domain'' = d"
  "map_of (urlQuery (domainRequest d)) ''domain'' = Some d"
  by (simp_all add: domainRequest_def queryGet_def)

lemma queryGet_empty_iff:
  "queryGet q k = [] \<longleftrightarrow> map_of q k = None \<or> map_of q k = Some []"
  by (simp add: queryGet_def split: option.splits)

lemma encodeResponse_fields:
  "fieldNames (JsonBody (encodeResponse r)) = [''domain'', ''publicSuffix'', ''isManagedBy'']"
  "field (JsonBody (encodeResponse r)) ''domain'' = Some (JString (coerceUTF8 (Domain r)))"
  "field (JsonBody (encodeResponse r)) ''isManagedBy'' = Some (JString (coerceUTF8 (IsManagedBy r)))"
  by (simp_all add: encodeResponse_def jsonString_def)

subsection \<open>Labels and the lookup\<close>

lemma splitDots_nonempty: "splitDots s \<noteq> []"
  by (induction s) auto

lemma splitDots_no_dot: "l \<in> set (splitDots s) \<Longrightarrow> CHR ''.'' \<notin> set l"
proof (induction s arbitrary: l)
  case Nil
  then show ?case by simp
next
  case (Cons c cs)
  obtain h t where ht: "splitDots cs = h # t"
    using splitDots_nonempty [of cs] by (cases "splitDots cs") auto
  show ?case
  proof (cases "c = CHR ''.''")
    case True
    with Cons show ?thesis by auto
  next
    case False
    with Cons.prems ht have "l = c # h \<or> l \<in> set t" by simp
    then show ?thesis
    proof
      assume "l = c # h"
      moreover have "CHR ''.'' \<notin> set h" using Cons.IH [of h] ht by simp
      ultimately show ?thesis using False by auto
    next
      assume "l \<in> set t"
      then show ?thesis using Cons.IH [of l] ht by simp
    qed
  qed
qed

lemma topLevelLabel_no_dot: "CHR ''.'' \<notin> set (topLevelLabel d)"
  unfolding topLevelLabel_def
  using splitDots_no_dot [of "last (splitDots d)" d] splitDots_nonempty [of d]
  by simp

lemma joinDots_splitDots: "joinDots (splitDots s) = s"
proof (induction s)
  case Nil
  then show ?case by simp
next
  case (Cons c cs)
  obtain h t where ht: "splitDots cs = h # t"
    using splitDots_nonempty [of cs] by (cases "splitDots cs") auto
  show ?case
  proof (cases "c = CHR ''.''")
    case True
    with Cons ht show ?thesis by simp
  next
    case False
    with Cons ht show ?thesis by (cases t) auto
  qed
qed

lemma last_splitDots_empty_iff: "last (splitDots s) = [] \<longleftrightarrow> s = [] \<or> last s = CHR ''.''"
proof (induction s)
  case Nil
  then show ?case by simp
next
  case (Cons c cs)
  obtain h t where ht: "splitDots cs = h # t"
    using splitDots_nonempty [of cs] by (cases "splitDots cs") auto
  show ?case
  proof (cases "cs = []")
    case True
    then show ?thesis by simp
  next
    case nonempty: False
    show ?thesis
    proof (cases "c \<noteq> CHR ''.'' \<and> t = []")
      case True
      with ht have "joinDots (splitDots cs) = h" by simp
      then have "cs = h" by (simp add: joinDots_splitDots)
      moreover have "CHR ''.'' \<notin> set h"
        using splitDots_no_dot [of h cs] ht by simp
      ultimately have "last cs \<noteq> CHR ''.''"
        using nonempty last_in_set [of cs] by metis
      with True ht nonempty show ?thesis by simp
    next
      case False
      with Cons.IH ht nonempty show ?thesis by auto
    qed
  qed
qed

lemma topLevelLabel_empty_iff: "topLevelLabel d = [] \<longleftrightarrow> d = [] \<or> last d = CHR ''.''"
  by (simp add: topLevelLabel_def last_splitDots_empty_iff)

lemma selectLongest_None_iff: "selectLongest rs = None \<longleftrightarrow> rs = []"
  by (induction rs) (auto split: option.splits)

lemma selectLongest_Some:
  "selectLongest rs = Some r \<Longrightarrow> r \<in> set rs \<and> (\<forall>r' \<in> set rs. labelCount r' \<le> labelCount r)"
proof (induction rs arbitrary: r)
  case Nil
  then show ?case by simp
next
  case (Cons a rs)
  show ?case
  proof (cases "selectLongest rs")
    case None
    then have "rs = []" by (simp add: selectLongest_None_iff)
    with Cons.prems show ?thesis by simp
  next
    case (Some b)
    from Cons.IH [OF Some] have b: "b \<in> set rs" "\<forall>r' \<in> set rs. labelCount r' \<le> labelCount b"
      by simp_all
    show ?thesis
    proof (cases "labelCount a < labelCount b")
      case True
      with Cons.prems Some have "r = b" by simp
      with b True show ?thesis by auto
    next
      case False
      with Cons.prems Some have "r = a" by simp
      with b False show ?thesis by fastforce
    qed
  qed
qed

lemma selectLongest_singleton_set: "set rs = {r} \<Longrightarrow> selectLongest rs = Some r"
proof -
  assume s: "set rs = {r}"
  then have "rs \<noteq> []" by auto
  then obtain r' where r': "selectLongest rs = Some r'"
    using selectLongest_None_iff [of rs] by (cases "selectLongest rs") auto
  with selectLongest_Some [OF r'] s show ?thesis by simp
qed

lemma set_matchingRules:
  "set (matchingRules tbl dl) = {r \<in> set (rulesForTopLabel tbl (last dl)). ruleMatches r dl}"
  by (simp add: matchingRules_def)

lemma set_applicable:
  "set (applicable tbl dl) =
     (if \<exists>r \<in> set (matchingRules tbl dl). kind r = Exception
      then {r \<in> set (matchingRules tbl dl). kind r \<noteq> Wildcard}
      else set (matchingRules tbl dl))"
  by (simp add: applicable_def Let_def list_ex_iff)

lemma applicable_empty_iff: "applicable tbl dl = [] \<longleftrightarrow> matchingRules tbl dl = []"
proof
  assume "applicable tbl dl = []"
  then have "set (applicable tbl dl) = {}" by simp
  then show "matchingRules tbl dl = []"
    unfolding set_applicable by (auto split: if_splits)
next
  assume "matchingRules tbl dl = []"
  then show "applicable tbl dl = []" by (simp add: applicable_def)
qed

lemma lookup_selected:
  "selectLongest (applicable tbl (splitDots d)) = Some r \<Longrightarrow>
     publicsuffix_PublicSuffix tbl d = (joinDots (takeLast (suffixLength r) (splitDots d)), origin r = ICANN)"
  by (simp add: publicsuffix_PublicSuffix_def)

lemma lookup_default:
  "matchingRules tbl (splitDots d) = [] \<Longrightarrow> publicsuffix_PublicSuffix tbl d = (topLevelLabel d, False)"
  by (simp add: publicsuffix_PublicSuffix_def applicable_def topLevelLabel_def)

lemma classify_default:
  "matchingRules tbl (splitDots d) = [] \<Longrightarrow>
     classify tbl d = \<lparr>Domain = d, PublicSuffix = topLevelLabel d, IsManagedBy = ''NONE''\<rparr>"
  by (simp add: classify_def publicSuffixHttpResponse_def lookup_default IndexByte_nonneg_iff topLevelLabel_no_dot)



lemma matchingRules_empty:
  "\<forall>r \<in> set tbl. \<not> ruleMatches r dl \<Longrightarrow> matchingRules tbl dl = []"
  by (simp add: matchingRules_def rulesForTopLabel_def filter_empty_conv)


lemma selectLongest_nonempty:
  assumes "rs \<noteq> []"
  obtains r where "selectLongest rs = Some r"
  using assms selectLongest_None_iff [of rs] by (cases "selectLongest rs") auto

lemma classify_of_lookup:
  assumes "publicsuffix_PublicSuffix tbl d = (s, True)"
  shows "classify tbl d = \<lparr>Domain = d, PublicSuffix = s, IsManagedBy = ''ICANN''\<rparr>"
  using assms by (simp add: classify_def publicSuffixHttpResponse_def)


lemma classify_selected:
  assumes "set (applicable tbl (splitDots d)) = {r}"
  shows "publicsuffix_PublicSuffix tbl d
           = (joinDots (takeLast (suffixLength r) (splitDots d)), origin r = ICANN)"
  using lookup_selected [OF selectLongest_singleton_set [OF assms]] .

lemma ck_instances:
  assumes "set (rulesForTopLabel tbl ''ck'') =
             {\<lparr>labels = [''ck''], kind = Wildcard, origin = ICANN\<rparr>,
              \<lparr>labels = [''www'', ''ck''], kind = Exception, origin = ICANN\<rparr>}"
  shows "classify tbl ''www.ck'' =
           \<lparr>Domain = ''www.ck'', PublicSuffix = ''ck'', IsManagedBy = ''ICANN''\<rparr>"
    and "classify tbl ''foo.ck'' =
           \<lparr>Domain = ''foo.ck'', PublicSuffix = ''foo.ck'', IsManagedBy = ''ICANN''\<rparr>"
    and "classify tbl ''ck'' =
           \<lparr>Domain = ''ck'', PublicSuffix = ''ck'', IsManagedBy = ''NONE''\<rparr>"
proof -
  define w where "w = \<lparr>labels = [''ck''], kind = Wildcard, origin = ICANN\<rparr>"
  define e where "e = \<lparr>labels = [''www'', ''ck''], kind = Exception, origin = ICANN\<rparr>"
  have k: "kind w = Wildcard" "kind e = Exception"
    by (simp_all add: w_def e_def)
  have cands: "set (rulesForTopLabel tbl ''ck'') = {w, e}"
    using assms by (simp add: w_def e_def)

  have www: "splitDots ''www.ck'' = [''www'', ''ck'']" by simp
  have lwww: "last (splitDots ''www.ck'') = ''ck''" by (simp add: www)
  have mwww: "ruleMatches w (splitDots ''www.ck'')" "ruleMatches e (splitDots ''www.ck'')"
    by (simp_all add: www w_def e_def ruleMatches_def isSuffixOf_def takeLast_def)
  have "set (matchingRules tbl (splitDots ''www.ck'')) = {w, e}"
    unfolding set_matchingRules lwww cands using mwww by blast
  then have "set (applicable tbl (splitDots ''www.ck'')) = {e}"
    unfolding set_applicable using k by auto
  from classify_selected [OF this]
  have "publicsuffix_PublicSuffix tbl ''www.ck'' = (''ck'', True)"
    by (simp add: e_def suffixLength_def takeLast_def)
  then show "classify tbl ''www.ck'' =
           \<lparr>Domain = ''www.ck'', PublicSuffix = ''ck'', IsManagedBy = ''ICANN''\<rparr>"
    by (rule classify_of_lookup)

  have foo: "splitDots ''foo.ck'' = [''foo'', ''ck'']" by simp
  have lfoo: "last (splitDots ''foo.ck'') = ''ck''" by (simp add: foo)
  have mfoo: "ruleMatches w (splitDots ''foo.ck'')" "\<not> ruleMatches e (splitDots ''foo.ck'')"
    by (simp_all add: foo w_def e_def ruleMatches_def isSuffixOf_def takeLast_def)
  have "set (matchingRules tbl (splitDots ''foo.ck'')) = {w}"
    unfolding set_matchingRules lfoo cands using mfoo by blast
  then have "set (applicable tbl (splitDots ''foo.ck'')) = {w}"
    unfolding set_applicable using k by auto
  from classify_selected [OF this]
  have "publicsuffix_PublicSuffix tbl ''foo.ck'' = (''foo.ck'', True)"
    by (simp add: w_def suffixLength_def takeLast_def)
  then show "classify tbl ''foo.ck'' =
           \<lparr>Domain = ''foo.ck'', PublicSuffix = ''foo.ck'', IsManagedBy = ''ICANN''\<rparr>"
    by (rule classify_of_lookup)

  have ck: "splitDots ''ck'' = [''ck'']" by simp
  have lck: "last (splitDots ''ck'') = ''ck''" by (simp add: ck)
  have mck: "\<not> ruleMatches w (splitDots ''ck'')" "\<not> ruleMatches e (splitDots ''ck'')"
    by (simp_all add: ck w_def e_def ruleMatches_def isSuffixOf_def takeLast_def)
  have "set (matchingRules tbl (splitDots ''ck'')) = {}"
    unfolding set_matchingRules lck cands using mck by blast
  then have "matchingRules tbl (splitDots ''ck'') = []" by simp
  from classify_default [OF this]
  show "classify tbl ''ck'' =
           \<lparr>Domain = ''ck'', PublicSuffix = ''ck'', IsManagedBy = ''NONE''\<rparr>"
    by (simp add: topLevelLabel_def ck)
qed

lemma wildcard_needs_extra_label:
  "\<not> ruleMatches \<lparr>labels = ls, kind = Wildcard, origin = og\<rparr> ls"
  by (simp add: ruleMatches_def)

lemma ruleMatches_labelCount_le: "ruleMatches r dl \<Longrightarrow> labelCount r \<le> length dl"
  by (cases "kind r") (auto simp: ruleMatches_def labelCount_def isSuffixOf_def)

lemma applicable_subset: "set (applicable tbl dl) \<subseteq> set (matchingRules tbl dl)"
  unfolding set_applicable by auto

lemma matchingRules_subset:
  "r \<in> set (matchingRules tbl dl) \<Longrightarrow> r \<in> set tbl \<and> ruleMatches r dl"
  by (simp add: matchingRules_def rulesForTopLabel_def)

lemma isSuffixOf_refl: "isSuffixOf xs xs"
  by (simp add: isSuffixOf_def takeLast_def)

lemma plain_rule_applicable:
  assumes "r \<in> set tbl" and "kind r = Plain" and "labels r = dl" and "dl \<noteq> []"
  shows "r \<in> set (applicable tbl dl)"
proof -
  from assms have m: "ruleMatches r dl"
    by (simp add: ruleMatches_def isSuffixOf_refl)
  with assms have "r \<in> set (matchingRules tbl dl)"
    by (simp add: matchingRules_def rulesForTopLabel_def)
  with assms(2) show ?thesis
    unfolding set_applicable by auto
qed

lemma known_suffix_lookup:
  assumes r: "r \<in> set tbl" "kind r = Plain" "labels r = splitDots d"
      and noex: "\<forall>e \<in> set tbl. kind e = Exception \<longrightarrow> \<not> ruleMatches e (splitDots d)"
  shows "\<exists>r' \<in> set tbl. ruleMatches r' (splitDots d) \<and> labelCount r' = length (splitDots d)
           \<and> publicsuffix_PublicSuffix tbl d = (d, origin r' = ICANN)"
proof -
  let ?dl = "splitDots d"
  have ne: "?dl \<noteq> []" by (rule splitDots_nonempty)
  from plain_rule_applicable [OF r(1) r(2) r(3) ne]
  have ra: "r \<in> set (applicable tbl ?dl)" .
  then have "applicable tbl ?dl \<noteq> []" by auto
  then obtain r' where sel: "selectLongest (applicable tbl ?dl) = Some r'"
    by (rule selectLongest_nonempty)
  from selectLongest_Some [OF sel] ra
  have r'a: "r' \<in> set (applicable tbl ?dl)" and ge: "labelCount r \<le> labelCount r'" by auto
  from r'a applicable_subset have "r' \<in> set (matchingRules tbl ?dl)" by blast
  from matchingRules_subset [OF this] have r't: "r' \<in> set tbl" and r'm: "ruleMatches r' ?dl"
    by simp_all
  from r(2) r(3) have "labelCount r = length ?dl" by (simp add: labelCount_def)
  with ge ruleMatches_labelCount_le [OF r'm] have lc: "labelCount r' = length ?dl" by simp
  from noex r't r'm have "kind r' \<noteq> Exception" by blast
  then have "suffixLength r' = labelCount r'"
    by (cases "kind r'") (simp_all add: suffixLength_def labelCount_def)
  with lc have "takeLast (suffixLength r') ?dl = ?dl" by (simp add: takeLast_def)
  with lookup_selected [OF sel]
  have "publicsuffix_PublicSuffix tbl d = (d, origin r' = ICANN)"
    by (simp add: joinDots_splitDots)
  with r't r'm lc show ?thesis by blast
qed

lemma classify_selected_manager:
  assumes "selectLongest (applicable tbl (splitDots d)) = Some r"
  shows "IsManagedBy (classify tbl d) =
           (case origin r of
              ICANN \<Rightarrow> ''ICANN''
            | PrivateEntity \<Rightarrow>
                if CHR ''.'' \<in> set (PublicSuffix (classify tbl d)) then ''PRIVATE_ENTITY''
                else ''NONE'')"
  using lookup_selected [OF assms]
  by (cases "origin r") (simp_all add: classify_def response_fields)

section \<open>The matching algorithm\<close>




text \<open>
  Claim C2. Wildcard and exception: on a table whose rules for \<^verbatim>\<open>ck\<close> are the wildcard
  \<^verbatim>\<open>*.ck\<close> and the exception \<^verbatim>\<open>!www.ck\<close>, both ICANN, \<^verbatim>\<open>www.ck\<close> has the suffix \<^verbatim>\<open>ck\<close> and
  \<^verbatim>\<open>foo.ck\<close> the suffix \<^verbatim>\<open>foo.ck\<close>, both reported as ICANN; \<^verbatim>\<open>ck\<close> alone falls to the
  default rule; and no wildcard rule matches a domain that is just its own pattern.
\<close>

theorem wildcard_and_exception:
  "(set (rulesForTopLabel tbl ''ck'') =
        {\<lparr>labels = [''ck''], kind = Wildcard, origin = ICANN\<rparr>,
         \<lparr>labels = [''www'', ''ck''], kind = Exception, origin = ICANN\<rparr>} \<longrightarrow>
      classify tbl ''www.ck'' =
        \<lparr>Domain = ''www.ck'', PublicSuffix = ''ck'', IsManagedBy = ''ICANN''\<rparr>
    \<and> classify tbl ''foo.ck'' =
        \<lparr>Domain = ''foo.ck'', PublicSuffix = ''foo.ck'', IsManagedBy = ''ICANN''\<rparr>
    \<and> classify tbl ''ck'' =
        \<lparr>Domain = ''ck'', PublicSuffix = ''ck'', IsManagedBy = ''NONE''\<rparr>)
 \<and> \<not> ruleMatches \<lparr>labels = ls, kind = Wildcard, origin = og\<rparr> ls"
proof (intro conjI impI)
  assume a: "set (rulesForTopLabel tbl ''ck'') =
        {\<lparr>labels = [''ck''], kind = Wildcard, origin = ICANN\<rparr>,
         \<lparr>labels = [''www'', ''ck''], kind = Exception, origin = ICANN\<rparr>}"
  show "classify tbl ''www.ck'' =
        \<lparr>Domain = ''www.ck'', PublicSuffix = ''ck'', IsManagedBy = ''ICANN''\<rparr>"
    by (rule ck_instances(1) [OF a])
  show "classify tbl ''foo.ck'' =
        \<lparr>Domain = ''foo.ck'', PublicSuffix = ''foo.ck'', IsManagedBy = ''ICANN''\<rparr>"
    by (rule ck_instances(2) [OF a])
  show "classify tbl ''ck'' =
        \<lparr>Domain = ''ck'', PublicSuffix = ''ck'', IsManagedBy = ''NONE''\<rparr>"
    by (rule ck_instances(3) [OF a])
next
  show "\<not> ruleMatches \<lparr>labels = ls, kind = Wildcard, origin = og\<rparr> ls"
    by (rule wildcard_needs_extra_label)
qed

theorem wildcard_and_exception_witness:
  "set (rulesForTopLabel
         [\<lparr>labels = [''ck''], kind = Wildcard, origin = ICANN\<rparr>,
          \<lparr>labels = [''www'', ''ck''], kind = Exception, origin = ICANN\<rparr>,
          \<lparr>labels = [''com''], kind = Plain, origin = ICANN\<rparr>] ''ck'') =
        {\<lparr>labels = [''ck''], kind = Wildcard, origin = ICANN\<rparr>,
         \<lparr>labels = [''www'', ''ck''], kind = Exception, origin = ICANN\<rparr>}
 \<and> classify
         [\<lparr>labels = [''ck''], kind = Wildcard, origin = ICANN\<rparr>,
          \<lparr>labels = [''www'', ''ck''], kind = Exception, origin = ICANN\<rparr>,
          \<lparr>labels = [''com''], kind = Plain, origin = ICANN\<rparr>] ''www.ck''
     = \<lparr>Domain = ''www.ck'', PublicSuffix = ''ck'', IsManagedBy = ''ICANN''\<rparr>"
proof -
  have h: "set (rulesForTopLabel
         [\<lparr>labels = [''ck''], kind = Wildcard, origin = ICANN\<rparr>,
          \<lparr>labels = [''www'', ''ck''], kind = Exception, origin = ICANN\<rparr>,
          \<lparr>labels = [''com''], kind = Plain, origin = ICANN\<rparr>] ''ck'') =
        {\<lparr>labels = [''ck''], kind = Wildcard, origin = ICANN\<rparr>,
         \<lparr>labels = [''www'', ''ck''], kind = Exception, origin = ICANN\<rparr>}"
    by (simp add: rulesForTopLabel_def)
  from wildcard_and_exception [THEN conjunct1, THEN mp, OF h, THEN conjunct1] h
  show ?thesis by (intro conjI)
qed

text \<open>
  Claim C3. Implicit default rule: a domain whose top-level label has no rule in the table
  is classified with that label alone as its suffix and reported as \<^verbatim>\<open>NONE\<close>.
\<close>

theorem implicit_default_rule:
  assumes "rulesForTopLabel tbl (topLevelLabel d) = []"
  shows "classify tbl d = \<lparr>Domain = d, PublicSuffix = topLevelLabel d, IsManagedBy = ''NONE''\<rparr>"
proof -
  from assms have "matchingRules tbl (splitDots d) = []"
    by (simp add: matchingRules_def topLevelLabel_def)
  then show ?thesis by (rule classify_default)
qed

theorem implicit_default_rule_witness:
  "rulesForTopLabel [\<lparr>labels = [''com''], kind = Plain, origin = ICANN\<rparr>] (topLevelLabel ''www.example.zz'') = []
 \<and> classify [\<lparr>labels = [''com''], kind = Plain, origin = ICANN\<rparr>] ''www.example.zz''
     = \<lparr>Domain = ''www.example.zz'', PublicSuffix = ''zz'', IsManagedBy = ''NONE''\<rparr>"
proof -
  have t: "topLevelLabel ''www.example.zz'' = ''zz''"
    by (simp add: topLevelLabel_def)
  have h: "rulesForTopLabel [\<lparr>labels = [''com''], kind = Plain, origin = ICANN\<rparr>] (topLevelLabel ''www.example.zz'') = []"
    by (simp add: t rulesForTopLabel_def)
  from implicit_default_rule [OF h] have
    "classify [\<lparr>labels = [''com''], kind = Plain, origin = ICANN\<rparr>] ''www.example.zz''
       = \<lparr>Domain = ''www.example.zz'', PublicSuffix = ''zz'', IsManagedBy = ''NONE''\<rparr>"
    by (simp only: t)
  with h show ?thesis by (intro conjI)
qed

text \<open>
  Claim C6, as the matching algorithm has it. When no rule of the table matches a domain,
  its suffix is its top-level label, the text after the last dot, which is empty only for
  the empty string and for a string that ends in a dot; when the table has no rule at all
  for the top-level label, the domain is reported as \<^verbatim>\<open>NONE\<close>. A domain whose labels are
  those of a plain rule of the table is matched by that rule; when no exception rule
  matches it, its suffix is the whole domain and it is reported as \<^verbatim>\<open>ICANN\<close> exactly when
  some matching rule that covers the whole domain (the selected one) is an ICANN rule.
\<close>

theorem no_match_gives_top_level_label:
  "((\<forall>r \<in> set tbl. \<not> ruleMatches r (splitDots d)) \<longrightarrow>
       PublicSuffix (classify tbl d) = topLevelLabel d
     \<and> (PublicSuffix (classify tbl d) = [] \<longleftrightarrow> d = [] \<or> last d = CHR ''.'')
     \<and> (rulesForTopLabel tbl (topLevelLabel d) = [] \<longrightarrow>
          IsManagedBy (classify tbl d) = ''NONE''))
 \<and> (p \<in> set tbl \<and> kind p = Plain \<and> labels p = splitDots d
      \<and> (\<forall>e \<in> set tbl. kind e = Exception \<longrightarrow> \<not> ruleMatches e (splitDots d)) \<longrightarrow>
       ruleMatches p (splitDots d)
     \<and> PublicSuffix (classify tbl d) = d
     \<and> (\<exists>r' \<in> set tbl. ruleMatches r' (splitDots d)
           \<and> labelCount r' = length (splitDots d)
           \<and> (IsManagedBy (classify tbl d) = ''ICANN'' \<longleftrightarrow> origin r' = ICANN)))"
proof (intro conjI impI)
  assume a: "\<forall>r \<in> set tbl. \<not> ruleMatches r (splitDots d)"
  note c = classify_default [OF matchingRules_empty [OF a]]
  from c show "PublicSuffix (classify tbl d) = topLevelLabel d" by simp
  from c show "PublicSuffix (classify tbl d) = [] \<longleftrightarrow> d = [] \<or> last d = CHR ''.''"
    by (simp add: topLevelLabel_empty_iff)
  from c show "IsManagedBy (classify tbl d) = ''NONE''" by simp
next
  assume b: "p \<in> set tbl \<and> kind p = Plain \<and> labels p = splitDots d
      \<and> (\<forall>e \<in> set tbl. kind e = Exception \<longrightarrow> \<not> ruleMatches e (splitDots d))"
  then show "ruleMatches p (splitDots d)"
    by (simp add: ruleMatches_def isSuffixOf_refl)
  from b have "\<exists>r' \<in> set tbl. ruleMatches r' (splitDots d) \<and> labelCount r' = length (splitDots d)
           \<and> publicsuffix_PublicSuffix tbl d = (d, origin r' = ICANN)"
    using known_suffix_lookup [of p tbl d] by blast
  then obtain r' where r': "r' \<in> set tbl" "ruleMatches r' (splitDots d)"
      "labelCount r' = length (splitDots d)"
      "publicsuffix_PublicSuffix tbl d = (d, origin r' = ICANN)"
    by blast
  from r'(4) show "PublicSuffix (classify tbl d) = d"
    by (simp add: classify_def response_fields)
  from r'(4) have "IsManagedBy (classify tbl d) = ''ICANN'' \<longleftrightarrow> origin r' = ICANN"
    by (simp add: classify_def response_fields)
  with r'(1,2,3)
  show "\<exists>r' \<in> set tbl. ruleMatches r' (splitDots d)
           \<and> labelCount r' = length (splitDots d)
           \<and> (IsManagedBy (classify tbl d) = ''ICANN'' \<longleftrightarrow> origin r' = ICANN)"
    by blast
qed

theorem no_match_gives_top_level_label_witness:
  "\<not> ruleMatches \<lparr>labels = [''ck''], kind = Wildcard, origin = ICANN\<rparr> (splitDots ''ck'')
 \<and> PublicSuffix (classify [\<lparr>labels = [''ck''], kind = Wildcard, origin = ICANN\<rparr>] ''ck'') = ''ck''
 \<and> rulesForTopLabel [\<lparr>labels = [''com''], kind = Plain, origin = ICANN\<rparr>] (topLevelLabel ''example.zz'') = []
 \<and> IsManagedBy (classify [\<lparr>labels = [''com''], kind = Plain, origin = ICANN\<rparr>] ''example.zz'') = ''NONE''
 \<and> kind \<lparr>labels = [''co'', ''uk''], kind = Plain, origin = ICANN\<rparr> = Plain
 \<and> labels \<lparr>labels = [''co'', ''uk''], kind = Plain, origin = ICANN\<rparr> = splitDots ''co.uk''
 \<and> PublicSuffix (classify [\<lparr>labels = [''uk''], kind = Plain, origin = ICANN\<rparr>, \<lparr>labels = [''co'', ''uk''], kind = Plain, origin = ICANN\<rparr>] ''co.uk'') = ''co.uk''"
proof -
  have t: "topLevelLabel ''ck'' = ''ck''" "topLevelLabel ''example.zz'' = ''zz''"
    by (simp_all add: topLevelLabel_def)
  have n: "\<not> ruleMatches \<lparr>labels = [''ck''], kind = Wildcard, origin = ICANN\<rparr> (splitDots ''ck'')"
    by (simp add: ruleMatches_def)
  then have h1: "\<forall>r \<in> set [\<lparr>labels = [''ck''], kind = Wildcard, origin = ICANN\<rparr>]. \<not> ruleMatches r (splitDots ''ck'')"
    by simp
  from no_match_gives_top_level_label [of "[\<lparr>labels = [''ck''], kind = Wildcard, origin = ICANN\<rparr>]" "''ck''", THEN conjunct1, THEN mp, OF h1, THEN conjunct1]
  have a: "PublicSuffix (classify [\<lparr>labels = [''ck''], kind = Wildcard, origin = ICANN\<rparr>] ''ck'') = ''ck''"
    by (simp only: t)
  have zz: "splitDots ''example.zz'' = [''example'', ''zz'']" by simp
  have h2: "\<forall>r \<in> set [\<lparr>labels = [''com''], kind = Plain, origin = ICANN\<rparr>]. \<not> ruleMatches r (splitDots ''example.zz'')"
    by (simp add: zz ruleMatches_def isSuffixOf_def takeLast_def)
  have h3: "rulesForTopLabel [\<lparr>labels = [''com''], kind = Plain, origin = ICANN\<rparr>] (topLevelLabel ''example.zz'') = []"
    by (simp add: t rulesForTopLabel_def)
  from no_match_gives_top_level_label [of "[\<lparr>labels = [''com''], kind = Plain, origin = ICANN\<rparr>]" "''example.zz''", THEN conjunct1, THEN mp, OF h2,
      THEN conjunct2, THEN conjunct2, THEN mp, OF h3]
  have b: "IsManagedBy (classify [\<lparr>labels = [''com''], kind = Plain, origin = ICANN\<rparr>] ''example.zz'') = ''NONE''" .
  have k: "kind \<lparr>labels = [''co'', ''uk''], kind = Plain, origin = ICANN\<rparr> = Plain" by simp
  have l: "labels \<lparr>labels = [''co'', ''uk''], kind = Plain, origin = ICANN\<rparr> = splitDots ''co.uk''" by simp
  have e: "\<forall>e \<in> set [\<lparr>labels = [''uk''], kind = Plain, origin = ICANN\<rparr>, \<lparr>labels = [''co'', ''uk''], kind = Plain, origin = ICANN\<rparr>]. kind e = Exception \<longrightarrow> \<not> ruleMatches e (splitDots ''co.uk'')"
    by simp
  have m: "\<lparr>labels = [''co'', ''uk''], kind = Plain, origin = ICANN\<rparr> \<in> set [\<lparr>labels = [''uk''], kind = Plain, origin = ICANN\<rparr>, \<lparr>labels = [''co'', ''uk''], kind = Plain, origin = ICANN\<rparr>]" by simp
  from no_match_gives_top_level_label [of "[\<lparr>labels = [''uk''], kind = Plain, origin = ICANN\<rparr>, \<lparr>labels = [''co'', ''uk''], kind = Plain, origin = ICANN\<rparr>]" "''co.uk''" "\<lparr>labels = [''co'', ''uk''], kind = Plain, origin = ICANN\<rparr>", THEN conjunct2, THEN mp,
      OF conjI [OF m conjI [OF k conjI [OF l e]]], THEN conjunct2, THEN conjunct1]
  have c: "PublicSuffix (classify [\<lparr>labels = [''uk''], kind = Plain, origin = ICANN\<rparr>, \<lparr>labels = [''co'', ''uk''], kind = Plain, origin = ICANN\<rparr>] ''co.uk'') = ''co.uk''" .
  from n a h3 b k l c show ?thesis by (intro conjI)
qed

text \<open>
  Claim C6 as stated asks for an empty suffix whenever no rule matches. Neither of the two
  rules \<^verbatim>\<open>uk\<close> and \<^verbatim>\<open>co.uk\<close> matches \<^verbatim>\<open>example.zz\<close>, and its suffix is \<^verbatim>\<open>zz\<close>. A domain that is
  itself a listed suffix, \<^verbatim>\<open>co.uk\<close>, has the suffix \<^verbatim>\<open>co.uk\<close> and is reported as \<^verbatim>\<open>ICANN\<close>.
\<close>

theorem no_match_suffix_not_empty_counterexample:
  "\<not> ruleMatches \<lparr>labels = [''uk''], kind = Plain, origin = ICANN\<rparr> (splitDots ''example.zz'')
 \<and> \<not> ruleMatches \<lparr>labels = [''co'', ''uk''], kind = Plain, origin = ICANN\<rparr> (splitDots ''example.zz'')
 \<and> PublicSuffix (classify [\<lparr>labels = [''uk''], kind = Plain, origin = ICANN\<rparr>,
                           \<lparr>labels = [''co'', ''uk''], kind = Plain, origin = ICANN\<rparr>] ''example.zz'') = ''zz''
 \<and> PublicSuffix (classify [\<lparr>labels = [''uk''], kind = Plain, origin = ICANN\<rparr>,
                           \<lparr>labels = [''co'', ''uk''], kind = Plain, origin = ICANN\<rparr>] ''co.uk'') = ''co.uk''
 \<and> IsManagedBy (classify [\<lparr>labels = [''uk''], kind = Plain, origin = ICANN\<rparr>,
                          \<lparr>labels = [''co'', ''uk''], kind = Plain, origin = ICANN\<rparr>] ''co.uk'') = ''ICANN''"
proof -
  define uk where "uk = \<lparr>labels = [''uk''], kind = Plain, origin = ICANN\<rparr>"
  define couk where "couk = \<lparr>labels = [''co'', ''uk''], kind = Plain, origin = ICANN\<rparr>"
  have zz: "splitDots ''example.zz'' = [''example'', ''zz'']" by simp
  have n1: "\<not> ruleMatches uk (splitDots ''example.zz'')"
    by (simp add: zz uk_def ruleMatches_def isSuffixOf_def takeLast_def)
  have n2: "\<not> ruleMatches couk (splitDots ''example.zz'')"
    by (simp add: zz couk_def ruleMatches_def isSuffixOf_def takeLast_def)
  from n1 n2 have "\<forall>r \<in> set [uk, couk]. \<not> ruleMatches r (splitDots ''example.zz'')"
    by simp
  then have "matchingRules [uk, couk] (splitDots ''example.zz'') = []"
    by (rule matchingRules_empty)
  from classify_default [OF this]
  have a: "PublicSuffix (classify [uk, couk] ''example.zz'') = ''zz''"
    by (simp add: topLevelLabel_def zz)
  have "set (rulesForTopLabel [uk, couk] ''uk'') = {uk, couk}"
    by (simp add: rulesForTopLabel_def uk_def couk_def)
  then have "set (rulesForTopLabel [uk, couk] ''uk'') =
      {\<lparr>labels = [''uk''], kind = Plain, origin = ICANN\<rparr>,
       \<lparr>labels = [''co'', ''uk''], kind = Plain, origin = ICANN\<rparr>}"
    by (simp only: uk_def couk_def)
  have couk: "splitDots ''co.uk'' = [''co'', ''uk'']" by simp
  have m: "ruleMatches uk (splitDots ''co.uk'')" "ruleMatches couk (splitDots ''co.uk'')"
    by (simp_all add: couk uk_def couk_def ruleMatches_def isSuffixOf_def takeLast_def)
  have k: "kind uk = Plain" "kind couk = Plain"
    by (simp_all add: uk_def couk_def)
  have n: "labelCount uk = 1" "labelCount couk = 2"
    by (simp_all add: uk_def couk_def labelCount_def)
  have "last (splitDots ''co.uk'') = ''uk''" by (simp add: couk)
  then have "rulesForTopLabel [uk, couk] (last (splitDots ''co.uk'')) = [uk, couk]"
    by (simp add: rulesForTopLabel_def uk_def couk_def)
  with m have "matchingRules [uk, couk] (splitDots ''co.uk'') = [uk, couk]"
    by (simp add: matchingRules_def)
  with k have "applicable [uk, couk] (splitDots ''co.uk'') = [uk, couk]"
    by (simp add: applicable_def)
  with n have "selectLongest (applicable [uk, couk] (splitDots ''co.uk'')) = Some couk"
    by simp
  from lookup_selected [OF this]
  have l: "publicsuffix_PublicSuffix [uk, couk] ''co.uk'' = (''co.uk'', True)"
    by (simp add: couk couk_def suffixLength_def takeLast_def)
  then have b: "PublicSuffix (classify [uk, couk] ''co.uk'') = ''co.uk''"
    by (simp add: classify_def response_fields)
  from l have c: "IsManagedBy (classify [uk, couk] ''co.uk'') = ''ICANN''"
    by (simp add: classify_def response_fields)
  from n1 n2 a b c show ?thesis
    by (simp only: uk_def couk_def simp_thms)
qed

section \<open>The endpoint\<close>

text \<open>
  Claim C4, as the handler has it. The endpoint answers with status 400 exactly when the
  \<^verbatim>\<open>domain\<close> parameter is empty or absent; for every other value, whatever its labels look
  like, it answers with status 200 and the classification of that value.
\<close>

theorem rejection_only_when_empty:
  assumes "urlPath req = ''/publicsuffix''"
  shows "(status (publicSuffixHttpHandler lookup req) = 400
            \<longleftrightarrow> queryGet (urlQuery req) ''domain'' = [])
       \<and> (queryGet (urlQuery req) ''domain'' \<noteq> [] \<longrightarrow>
            status (publicSuffixHttpHandler lookup req) = 200
          \<and> body (publicSuffixHttpHandler lookup req)
              = JsonBody (encodeResponse
                  (publicSuffixHttpResponse lookup (queryGet (urlQuery req) ''domain''))))"
  using assms
  by (simp add: publicSuffixHttpHandler_def Let_def StatusBadRequest_def StatusOK_def)

theorem rejection_only_when_empty_witness:
  "urlPath (domainRequest ''a..b'') = ''/publicsuffix''
 \<and> queryGet (urlQuery (domainRequest ''a..b'')) ''domain'' \<noteq> []
 \<and> status (publicSuffixHttpHandler (publicsuffix_PublicSuffix [\<lparr>labels = [''com''], kind = Plain, origin = ICANN\<rparr>]) (domainRequest ''a..b'')) = 200"
proof -
  have p: "urlPath (domainRequest ''a..b'') = ''/publicsuffix''"
    by (simp add: domainRequest_simps)
  have q: "queryGet (urlQuery (domainRequest ''a..b'')) ''domain'' \<noteq> []"
    by (simp add: domainRequest_simps)
  from rejection_only_when_empty [OF p, of "publicsuffix_PublicSuffix [\<lparr>labels = [''com''], kind = Plain, origin = ICANN\<rparr>]", THEN conjunct2, THEN mp, OF q, THEN conjunct1]
    p q
  show ?thesis by (intro conjI)
qed

text \<open>
  Claim C4 as stated asks for a failure on \<^verbatim>\<open>a..b\<close> and on a single dot. The endpoint answers
  both with status 200 and a classification body, after one lookup of the string as sent.
\<close>

theorem invalid_input_not_rejected_counterexample:
  "status (publicSuffixHttpHandler (publicsuffix_PublicSuffix [\<lparr>labels = [''com''], kind = Plain, origin = ICANN\<rparr>]) (domainRequest ''a..b'')) = 200
 \<and> fieldNames (body (publicSuffixHttpHandler (publicsuffix_PublicSuffix [\<lparr>labels = [''com''], kind = Plain, origin = ICANN\<rparr>]) (domainRequest ''a..b'')))
     = [''domain'', ''publicSuffix'', ''isManagedBy'']
 \<and> lookups (publicSuffixHttpHandler (publicsuffix_PublicSuffix [\<lparr>labels = [''com''], kind = Plain, origin = ICANN\<rparr>]) (domainRequest ''a..b'')) = [''a..b'']
 \<and> status (publicSuffixHttpHandler (publicsuffix_PublicSuffix [\<lparr>labels = [''com''], kind = Plain, origin = ICANN\<rparr>]) (domainRequest ''.'')) = 200
 \<and> fieldNames (body (publicSuffixHttpHandler (publicsuffix_PublicSuffix [\<lparr>labels = [''com''], kind = Plain, origin = ICANN\<rparr>]) (domainRequest ''.'')))
     = [''domain'', ''publicSuffix'', ''isManagedBy'']
 \<and> lookups (publicSuffixHttpHandler (publicsuffix_PublicSuffix [\<lparr>labels = [''com''], kind = Plain, origin = ICANN\<rparr>]) (domainRequest ''.'')) = [''.'']"
proof -
  have a: "publicSuffixHttpHandler lookup (domainRequest d) =
           \<lparr>status = 200,
            header = [(''Content-Type'', ''application/json; charset=utf-8'')],
            body = JsonBody (encodeResponse (publicSuffixHttpResponse lookup d)),
            lookups = [d]\<rparr>" if "d \<noteq> []" for lookup d
    using that by (intro handler_present) (simp_all add: domainRequest_simps)
  have "''a..b'' \<noteq> []" and "''.'' \<noteq> []" by simp_all
  then show ?thesis
    by (simp add: a encodeResponse_fields)
qed




text \<open>
  Claim C7, as the handler has it. For a non-empty \<^verbatim>\<open>domain\<close> parameter the body of the
  endpoint's reply is a JSON object with the fields \<^verbatim>\<open>domain\<close>, \<^verbatim>\<open>publicSuffix\<close> and
  \<^verbatim>\<open>isManagedBy\<close>, and the last of them is \<^verbatim>\<open>ICANN\<close> when the lookup flags the suffix as
  ICANN-managed, otherwise \<^verbatim>\<open>PRIVATE_ENTITY\<close> when the suffix contains a dot, otherwise
  \<^verbatim>\<open>NONE\<close>. For a matched rule this names the rule's origin, except that a rule of private
  origin whose matched suffix contains no dot is reported as \<^verbatim>\<open>NONE\<close>.
\<close>

theorem isManagedBy_serialization:
  "(urlPath req = ''/publicsuffix'' \<and> queryGet (urlQuery req) ''domain'' = d \<and> d \<noteq> [] \<longrightarrow>
      fieldNames (body (publicSuffixHttpHandler lookup req))
        = [''domain'', ''publicSuffix'', ''isManagedBy'']
    \<and> field (body (publicSuffixHttpHandler lookup req)) ''isManagedBy''
        = Some (JString (if snd (lookup d) then ''ICANN''
                         else if CHR ''.'' \<in> set (fst (lookup d)) then ''PRIVATE_ENTITY''
                         else ''NONE'')))
 \<and> (selectLongest (applicable tbl (splitDots d')) = Some r \<longrightarrow>
      IsManagedBy (classify tbl d') =
        (case origin r of
           ICANN \<Rightarrow> ''ICANN''
         | PrivateEntity \<Rightarrow>
             if CHR ''.'' \<in> set (PublicSuffix (classify tbl d')) then ''PRIVATE_ENTITY''
             else ''NONE''))"
proof (intro conjI impI)
  assume a: "urlPath req = ''/publicsuffix'' \<and> queryGet (urlQuery req) ''domain'' = d \<and> d \<noteq> []"
  then have h: "publicSuffixHttpHandler lookup req =
           \<lparr>status = 200,
            header = [(''Content-Type'', ''application/json; charset=utf-8'')],
            body = JsonBody (encodeResponse (publicSuffixHttpResponse lookup d)),
            lookups = [d]\<rparr>"
    by (intro handler_present) simp_all
  show "fieldNames (body (publicSuffixHttpHandler lookup req))
        = [''domain'', ''publicSuffix'', ''isManagedBy'']"
    by (simp add: h encodeResponse_fields)
  show "field (body (publicSuffixHttpHandler lookup req)) ''isManagedBy''
        = Some (JString (if snd (lookup d) then ''ICANN''
                         else if CHR ''.'' \<in> set (fst (lookup d)) then ''PRIVATE_ENTITY''
                         else ''NONE''))"
    by (simp add: h encodeResponse_fields response_fields coerceUTF8_managers
        del: coerceUTF8.simps)
next
  assume "selectLongest (applicable tbl (splitDots d')) = Some r"
  then show "IsManagedBy (classify tbl d') =
        (case origin r of
           ICANN \<Rightarrow> ''ICANN''
         | PrivateEntity \<Rightarrow>
             if CHR ''.'' \<in> set (PublicSuffix (classify tbl d')) then ''PRIVATE_ENTITY''
             else ''NONE'')"
    by (rule classify_selected_manager)
qed

theorem isManagedBy_serialization_witness:
  "urlPath (domainRequest ''example.com'') = ''/publicsuffix''
 \<and> queryGet (urlQuery (domainRequest ''example.com'')) ''domain'' = ''example.com''
 \<and> ''example.com'' \<noteq> []
 \<and> field (body (publicSuffixHttpHandler (\<lambda>d. (''com'', True)) (domainRequest ''example.com'')))
       ''isManagedBy'' = Some (JString ''ICANN'')
 \<and> selectLongest (applicable [\<lparr>labels = [''priv''], kind = Plain, origin = PrivateEntity\<rparr>] (splitDots ''a.priv'')) = Some \<lparr>labels = [''priv''], kind = Plain, origin = PrivateEntity\<rparr>
 \<and> IsManagedBy (classify [\<lparr>labels = [''priv''], kind = Plain, origin = PrivateEntity\<rparr>] ''a.priv'') = ''NONE''"
proof -
  have p: "urlPath (domainRequest ''example.com'') = ''/publicsuffix''"
    by (simp add: domainRequest_simps)
  have q: "queryGet (urlQuery (domainRequest ''example.com'')) ''domain'' = ''example.com''"
    by (simp add: domainRequest_simps)
  have ne: "''example.com'' \<noteq> []" by simp
  from isManagedBy_serialization [of "domainRequest ''example.com''" "''example.com''" "\<lambda>d. (''com'', True)",
      THEN conjunct1, THEN mp, OF conjI [OF p conjI [OF q ne]], THEN conjunct2]
  have a: "field (body (publicSuffixHttpHandler (\<lambda>d. (''com'', True)) (domainRequest ''example.com'')))
       ''isManagedBy'' = Some (JString ''ICANN'')"
    by simp
  have dl: "splitDots ''a.priv'' = [''a'', ''priv'']" by simp
  have sel: "selectLongest (applicable [\<lparr>labels = [''priv''], kind = Plain, origin = PrivateEntity\<rparr>] (splitDots ''a.priv'')) = Some \<lparr>labels = [''priv''], kind = Plain, origin = PrivateEntity\<rparr>"
    by (simp add: dl applicable_def matchingRules_def rulesForTopLabel_def ruleMatches_def
        isSuffixOf_def takeLast_def)
  have s: "PublicSuffix (classify [\<lparr>labels = [''priv''], kind = Plain, origin = PrivateEntity\<rparr>] ''a.priv'') = ''priv''"
    using lookup_selected [OF sel]
    by (simp add: classify_def response_fields dl suffixLength_def takeLast_def)
  from isManagedBy_serialization [THEN conjunct2, THEN mp, OF sel]
  have b: "IsManagedBy (classify [\<lparr>labels = [''priv''], kind = Plain, origin = PrivateEntity\<rparr>] ''a.priv'') = ''NONE''"
    by (simp add: s)
  from p q ne a sel b show ?thesis by (intro conjI)
qed

text \<open>
  Claim C7 as stated takes the reported string for the name of the origin, with private
  origin named \<^verbatim>\<open>PRIVATE_ENTITY\<close>. On a table with the private plain rule \<^verbatim>\<open>priv\<close>, the domain
  \<^verbatim>\<open>a.priv\<close> is matched by that rule, whose origin is private, and the reply says \<^verbatim>\<open>NONE\<close>.
\<close>

theorem private_single_label_counterexample:
  "selectLongest (applicable [\<lparr>labels = [''priv''], kind = Plain, origin = PrivateEntity\<rparr>] (splitDots ''a.priv'')) = Some \<lparr>labels = [''priv''], kind = Plain, origin = PrivateEntity\<rparr>
 \<and> origin \<lparr>labels = [''priv''], kind = Plain, origin = PrivateEntity\<rparr> = PrivateEntity
 \<and> field (body (publicSuffixHttpHandler (publicsuffix_PublicSuffix [\<lparr>labels = [''priv''], kind = Plain, origin = PrivateEntity\<rparr>]) (domainRequest ''a.priv'')))
       ''isManagedBy'' = Some (JString ''NONE'')"
proof -
  have dl: "splitDots ''a.priv'' = [''a'', ''priv'']" by simp
  have sel: "selectLongest (applicable [\<lparr>labels = [''priv''], kind = Plain, origin = PrivateEntity\<rparr>] (splitDots ''a.priv'')) = Some \<lparr>labels = [''priv''], kind = Plain, origin = PrivateEntity\<rparr>"
    by (simp add: dl applicable_def matchingRules_def rulesForTopLabel_def ruleMatches_def
        isSuffixOf_def takeLast_def)
  from lookup_selected [OF sel]
  have l: "publicsuffix_PublicSuffix [\<lparr>labels = [''priv''], kind = Plain, origin = PrivateEntity\<rparr>] ''a.priv'' = (''priv'', False)"
    by (simp add: dl suffixLength_def takeLast_def)
  have "''a.priv'' \<noteq> []" by simp
  then have h: "publicSuffixHttpHandler (publicsuffix_PublicSuffix [\<lparr>labels = [''priv''], kind = Plain, origin = PrivateEntity\<rparr>]) (domainRequest ''a.priv'') =
           \<lparr>status = 200,
            header = [(''Content-Type'', ''application/json; charset=utf-8'')],
            body = JsonBody (encodeResponse
                     (publicSuffixHttpResponse (publicsuffix_PublicSuffix [\<lparr>labels = [''priv''], kind = Plain, origin = PrivateEntity\<rparr>]) ''a.priv'')),
            lookups = [''a.priv'']\<rparr>"
    by (intro handler_present) (simp_all add: domainRequest_simps)
  have "field (body (publicSuffixHttpHandler (publicsuffix_PublicSuffix [\<lparr>labels = [''priv''], kind = Plain, origin = PrivateEntity\<rparr>]) (domainRequest ''a.priv'')))
       ''isManagedBy'' = Some (JString ''NONE'')"
    by (simp add: h encodeResponse_fields response_fields l coerceUTF8_managers
        del: coerceUTF8.simps)
  with sel show ?thesis by simp
qed

text \<open>
  Claim C8. When the \<^verbatim>\<open>domain\<close> parameter is absent or empty, the endpoint answers with
  status 400, a 400-class status, and a JSON object with the fields \<^verbatim>\<open>errorCode\<close>,
  \<^verbatim>\<open>errorType\<close> and \<^verbatim>\<open>errorMessage\<close>; no lookup is made, and the reply is the same whatever
  the lookup would have answered.
\<close>

theorem empty_parameter_rejected:
  assumes "urlPath req = ''/publicsuffix''"
      and "map_of (urlQuery req) ''domain'' = None \<or> map_of (urlQuery req) ''domain'' = Some []"
  shows "status (publicSuffixHttpHandler lookup req) = 400
       \<and> 400 \<le> status (publicSuffixHttpHandler lookup req)
       \<and> status (publicSuffixHttpHandler lookup req) < 500
       \<and> fieldNames (body (publicSuffixHttpHandler lookup req))
           = [''errorCode'', ''errorType'', ''errorMessage'']
       \<and> lookups (publicSuffixHttpHandler lookup req) = []
       \<and> publicSuffixHttpHandler lookup req = publicSuffixHttpHandler lookup' req"
  using assms handler_absent [of req]
  by (simp add: queryGet_empty_iff)

theorem empty_parameter_rejected_witness:
  "urlPath \<lparr>urlPath = ''/publicsuffix'', urlQuery = []\<rparr> = ''/publicsuffix''
 \<and> map_of (urlQuery \<lparr>urlPath = ''/publicsuffix'', urlQuery = []\<rparr>) ''domain'' = None
 \<and> status (publicSuffixHttpHandler (publicsuffix_PublicSuffix [\<lparr>labels = [''com''], kind = Plain, origin = ICANN\<rparr>])
             \<lparr>urlPath = ''/publicsuffix'', urlQuery = []\<rparr>) = 400
 \<and> urlPath (domainRequest []) = ''/publicsuffix''
 \<and> map_of (urlQuery (domainRequest [])) ''domain'' = Some []
 \<and> lookups (publicSuffixHttpHandler (publicsuffix_PublicSuffix [\<lparr>labels = [''com''], kind = Plain, origin = ICANN\<rparr>]) (domainRequest [])) = []"
proof -
  have p1: "urlPath \<lparr>urlPath = ''/publicsuffix'', urlQuery = []\<rparr> = ''/publicsuffix''"
    by simp
  have q1: "map_of (urlQuery \<lparr>urlPath = ''/publicsuffix'', urlQuery = []\<rparr>) ''domain'' = None"
    by simp
  have p2: "urlPath (domainRequest []) = ''/publicsuffix''"
    by (simp add: domainRequest_simps)
  have q2: "map_of (urlQuery (domainRequest [])) ''domain'' = Some []"
    by (simp add: domainRequest_simps)
  from empty_parameter_rejected [OF p1 disjI1 [OF q1], of "publicsuffix_PublicSuffix [\<lparr>labels = [''com''], kind = Plain, origin = ICANN\<rparr>]"]
  have a: "status (publicSuffixHttpHandler (publicsuffix_PublicSuffix [\<lparr>labels = [''com''], kind = Plain, origin = ICANN\<rparr>])
             \<lparr>urlPath = ''/publicsuffix'', urlQuery = []\<rparr>) = 400"
    by (rule conjunct1)
  from empty_parameter_rejected [OF p2 disjI2 [OF q2], of "publicsuffix_PublicSuffix [\<lparr>labels = [''com''], kind = Plain, origin = ICANN\<rparr>]"]
  have b: "lookups (publicSuffixHttpHandler (publicsuffix_PublicSuffix [\<lparr>labels = [''com''], kind = Plain, origin = ICANN\<rparr>]) (domainRequest [])) = []"
    by blast
  from p1 q1 a p2 q2 b show ?thesis by (intro conjI)
qed

text \<open>
  Claim C9. The manager reported is \<^verbatim>\<open>ICANN\<close> exactly when the lookup flags the suffix as
  ICANN-managed, \<^verbatim>\<open>PRIVATE_ENTITY\<close> exactly when it does not and the suffix contains a dot,
  and \<^verbatim>\<open>NONE\<close> exactly when it does not and the suffix contains no dot; so a suffix of one
  label that is not ICANN-managed, such as that of a private single-label rule, is reported
  as \<^verbatim>\<open>NONE\<close>.
\<close>

theorem dot_presence_heuristic:
  "(IsManagedBy (publicSuffixHttpResponse lookup d) = ''ICANN'' \<longleftrightarrow> snd (lookup d))
 \<and> (IsManagedBy (publicSuffixHttpResponse lookup d) = ''PRIVATE_ENTITY''
       \<longleftrightarrow> \<not> snd (lookup d) \<and> CHR ''.'' \<in> set (fst (lookup d)))
 \<and> (IsManagedBy (publicSuffixHttpResponse lookup d) = ''NONE''
       \<longleftrightarrow> \<not> snd (lookup d) \<and> CHR ''.'' \<notin> set (fst (lookup d)))"
  by (simp add: response_fields)

theorem dot_presence_heuristic_witness:
  "IsManagedBy (publicSuffixHttpResponse (\<lambda>d. (''priv'', False)) ''a.priv'') = ''NONE''
 \<and> IsManagedBy (publicSuffixHttpResponse (\<lambda>d. (''blogspot.com'', False)) ''a.blogspot.com'')
     = ''PRIVATE_ENTITY''"
proof -
  have a: "\<not> snd ((\<lambda>d. (''priv'', False)) ''a.priv'')
         \<and> CHR ''.'' \<notin> set (fst ((\<lambda>d. (''priv'', False)) ''a.priv''))"
    by simp
  have b: "\<not> snd ((\<lambda>d. (''blogspot.com'', False)) ''a.blogspot.com'')
         \<and> CHR ''.'' \<in> set (fst ((\<lambda>d. (''blogspot.com'', False)) ''a.blogspot.com''))"
    by simp
  from dot_presence_heuristic [of "\<lambda>d. (''priv'', False)" "''a.priv''", THEN conjunct2, THEN conjunct2] a
  have 1: "IsManagedBy (publicSuffixHttpResponse (\<lambda>d. (''priv'', False)) ''a.priv'') = ''NONE''"
    by (rule iffD2)
  from dot_presence_heuristic [of "\<lambda>d. (''blogspot.com'', False)" "''a.blogspot.com''", THEN conjunct2, THEN conjunct1] b
  have 2: "IsManagedBy (publicSuffixHttpResponse (\<lambda>d. (''blogspot.com'', False)) ''a.blogspot.com'')
     = ''PRIVATE_ENTITY''"
    by (rule iffD2)
  from 1 2 show ?thesis by (intro conjI)
qed

text \<open>
  Claim C10, as the handler and the encoder have it. For a non-empty \<^verbatim>\<open>domain\<close> parameter
  the struct's \<^verbatim>\<open>Domain\<close> is the parameter's value as it was sent, and the \<^verbatim>\<open>domain\<close> field a
  client reads from the reply is that value with the replacement character U+FFFD in the
  place of every byte at which no well-formed UTF-8 sequence starts. The field equals the
  value sent, byte for byte, exactly when that value is valid UTF-8, as every string of
  ASCII bytes is; no lowercasing and no stripping of dots takes place.
\<close>

theorem domain_echo_utf8:
  "urlPath req = ''/publicsuffix'' \<and> queryGet (urlQuery req) ''domain'' = d \<and> d \<noteq> [] \<longrightarrow>
     Domain (publicSuffixHttpResponse lookup d) = d
   \<and> field (body (publicSuffixHttpHandler lookup req)) ''domain'' = Some (JString (coerceUTF8 d))
   \<and> (field (body (publicSuffixHttpHandler lookup req)) ''domain'' = Some (JString d)
        \<longleftrightarrow> ValidString d)
   \<and> ((\<forall>c \<in> set d. (of_char c :: nat) < 128) \<longrightarrow>
        field (body (publicSuffixHttpHandler lookup req)) ''domain'' = Some (JString d))"
proof (intro impI)
  assume a: "urlPath req = ''/publicsuffix'' \<and> queryGet (urlQuery req) ''domain'' = d \<and> d \<noteq> []"
  then have h: "publicSuffixHttpHandler lookup req =
           \<lparr>status = 200,
            header = [(''Content-Type'', ''application/json; charset=utf-8'')],
            body = JsonBody (encodeResponse (publicSuffixHttpResponse lookup d)),
            lookups = [d]\<rparr>"
    by (intro handler_present) simp_all
  have f: "field (body (publicSuffixHttpHandler lookup req)) ''domain'' = Some (JString (coerceUTF8 d))"
    by (simp add: h encodeResponse_fields response_fields del: coerceUTF8.simps)
  have v: "field (body (publicSuffixHttpHandler lookup req)) ''domain'' = Some (JString d)
        \<longleftrightarrow> ValidString d"
    by (simp add: f coerceUTF8_fixed_iff del: coerceUTF8.simps ValidString.simps)
  have s: "(\<forall>c \<in> set d. (of_char c :: nat) < 128) \<longrightarrow>
        field (body (publicSuffixHttpHandler lookup req)) ''domain'' = Some (JString d)"
    using v ascii_ValidString [of d] by blast
  have "Domain (publicSuffixHttpResponse lookup d) = d" by (simp add: response_fields)
  with f v s
  show "Domain (publicSuffixHttpResponse lookup d) = d
   \<and> field (body (publicSuffixHttpHandler lookup req)) ''domain'' = Some (JString (coerceUTF8 d))
   \<and> (field (body (publicSuffixHttpHandler lookup req)) ''domain'' = Some (JString d)
        \<longleftrightarrow> ValidString d)
   \<and> ((\<forall>c \<in> set d. (of_char c :: nat) < 128) \<longrightarrow>
        field (body (publicSuffixHttpHandler lookup req)) ''domain'' = Some (JString d))"
    by (intro conjI)
qed

theorem domain_echo_utf8_witness:
  "urlPath (domainRequest ''Example.COM.'') = ''/publicsuffix''
 \<and> queryGet (urlQuery (domainRequest ''Example.COM.'')) ''domain'' = ''Example.COM.''
 \<and> ''Example.COM.'' \<noteq> []
 \<and> ValidString ''Example.COM.''
 \<and> field (body (publicSuffixHttpHandler (publicsuffix_PublicSuffix [\<lparr>labels = [''com''], kind = Plain, origin = ICANN\<rparr>]) (domainRequest ''Example.COM.'')))
      ''domain'' = Some (JString ''Example.COM.'')"
proof -
  have p: "urlPath (domainRequest ''Example.COM.'') = ''/publicsuffix''"
    by (simp add: domainRequest_simps)
  have q: "queryGet (urlQuery (domainRequest ''Example.COM.'')) ''domain'' = ''Example.COM.''"
    by (simp add: domainRequest_simps)
  have ne: "''Example.COM.'' \<noteq> []" by simp
  have v: "ValidString ''Example.COM.''"
    by (rule ascii_ValidString) simp
  from domain_echo_utf8 [of "domainRequest ''Example.COM.''" "''Example.COM.''" "publicsuffix_PublicSuffix [\<lparr>labels = [''com''], kind = Plain, origin = ICANN\<rparr>]",
      THEN mp, OF conjI [OF p conjI [OF q ne]], THEN conjunct2, THEN conjunct2, THEN conjunct1] v
  have "field (body (publicSuffixHttpHandler (publicsuffix_PublicSuffix [\<lparr>labels = [''com''], kind = Plain, origin = ICANN\<rparr>]) (domainRequest ''Example.COM.'')))
      ''domain'' = Some (JString ''Example.COM.'')"
    by (rule iffD2)
  with p q ne v show ?thesis by (intro conjI)
qed

text \<open>
  Claim C10 as stated asks for the value sent, byte for byte, whatever it is. The query
  \<^verbatim>\<open>?domain=%FF.com\<close> carries the byte FF followed by \<^verbatim>\<open>.com\<close>; the \<^verbatim>\<open>domain\<close> field of the
  reply holds the bytes EF BF BD followed by \<^verbatim>\<open>.com\<close>.
\<close>

theorem invalid_utf8_not_echoed_counterexample:
  "field (body (publicSuffixHttpHandler (publicsuffix_PublicSuffix [\<lparr>labels = [''com''], kind = Plain, origin = ICANN\<rparr>])
                 (domainRequest (CHR 0xFF # ''.com'')))) ''domain''
     = Some (JString (CHR 0xEF # CHR 0xBF # CHR 0xBD # ''.com''))
 \<and> field (body (publicSuffixHttpHandler (publicsuffix_PublicSuffix [\<lparr>labels = [''com''], kind = Plain, origin = ICANN\<rparr>])
                 (domainRequest (CHR 0xFF # ''.com'')))) ''domain''
     \<noteq> Some (JString (CHR 0xFF # ''.com''))"
proof -
  have c: "coerceUTF8 (CHR 0xFF # ''.com'') = CHR 0xEF # CHR 0xBF # CHR 0xBD # ''.com''"
    by (simp add: byteIn_def replacementChar_def)
  have "CHR 0xFF # ''.com'' \<noteq> []" by simp
  then have h: "publicSuffixHttpHandler (publicsuffix_PublicSuffix [\<lparr>labels = [''com''], kind = Plain, origin = ICANN\<rparr>]) (domainRequest (CHR 0xFF # ''.com'')) =
           \<lparr>status = 200,
            header = [(''Content-Type'', ''application/json; charset=utf-8'')],
            body = JsonBody (encodeResponse
                     (publicSuffixHttpResponse (publicsuffix_PublicSuffix [\<lparr>labels = [''com''], kind = Plain, origin = ICANN\<rparr>]) (CHR 0xFF # ''.com''))),
            lookups = [CHR 0xFF # ''.com'']\<rparr>"
    by (intro handler_present) (simp_all add: domainRequest_simps)
  have f: "field (body (publicSuffixHttpHandler (publicsuffix_PublicSuffix [\<lparr>labels = [''com''], kind = Plain, origin = ICANN\<rparr>])
                 (domainRequest (CHR 0xFF # ''.com'')))) ''domain''
     = Some (JString (CHR 0xEF # CHR 0xBF # CHR 0xBD # ''.com''))"
    by (simp add: h encodeResponse_fields response_fields c del: coerceUTF8.simps)
  then show ?thesis by simp
qed

end
